theory Spec2Isabelle
  imports Complex_Main "HOL-Library.Log_Nat"
begin

section \<open>Data model: TreeNode objects on a heap\<close>

text \<open>
  A \<^verbatim>\<open>TreeNode\<close> is a mutable Python object. Objects live in a heap, a list of node
  records; a reference is the index of the object, and creating an object appends a
  record. Every field of \<^verbatim>\<open>TreeNode.__init__\<close> is a field of the record:
  \<^verbatim>\<open>children\<close>, \<^verbatim>\<open>up\<close>, \<^verbatim>\<open>features\<close>, \<^verbatim>\<open>collapsed\<close> and the three
  basic features \<^verbatim>\<open>dist\<close>, \<^verbatim>\<open>name\<close>, \<^verbatim>\<open>support\<close> (\<open>dist_f\<close> holds \<^verbatim>\<open>dist\<close>).
  \<open>collapse_attr\<close> is the instance attribute \<^verbatim>\<open>collapse\<close> that the methods
  \<^verbatim>\<open>collapse\<close> and \<^verbatim>\<open>expand\<close> assign: \<open>None\<close> while the instance has no such
  attribute (the name then resolves to the method of the class).

  The type \<open>'d\<close> of branch lengths is a parameter. Python stores floats there; the
  theorems below are stated for exact arithmetic (an ordered field such as the reals),
  and binary64 rounding is modelled separately where it decides a claim.
\<close>

type_synonym ref = nat

record 'd node =
  children :: "ref list"
  up :: "ref option"
  features :: "string set"
  collapsed :: bool
  collapse_attr :: "bool option"
  dist_f :: 'd
  name :: string
  support :: 'd

type_synonym 'd heap = "'d node list"

datatype error = TreeError | ValueError | TypeError | IndexError | AttributeError

text \<open>\<^verbatim>\<open>TreeNode.__init__\<close> with \<^verbatim>\<open>newick=None\<close>.\<close>

definition new_node :: "'d::one node" where
  "new_node = \<lparr>children = [], up = None, features = {''dist'', ''name'', ''support''},
     collapsed = False, collapse_attr = None, dist_f = 1, name = ''NoName'', support = 1\<rparr>"

text \<open>\<^verbatim>\<open>add_feature\<close>, at the three names \<^verbatim>\<open>add_child\<close> uses.\<close>

definition add_feature_name :: "'d heap \<Rightarrow> ref \<Rightarrow> string \<Rightarrow> 'd heap" where
  "add_feature_name h n v =
     h[n := (h ! n)\<lparr>name := v, features := insert ''name'' (features (h ! n))\<rparr>]"

definition add_feature_dist :: "'d heap \<Rightarrow> ref \<Rightarrow> 'd \<Rightarrow> 'd heap" where
  "add_feature_dist h n v =
     h[n := (h ! n)\<lparr>dist_f := v, features := insert ''dist'' (features (h ! n))\<rparr>]"

definition add_feature_support :: "'d heap \<Rightarrow> ref \<Rightarrow> 'd \<Rightarrow> 'd heap" where
  "add_feature_support h n v =
     h[n := (h ! n)\<lparr>support := v, features := insert ''support'' (features (h ! n))\<rparr>]"

text \<open>
  An argument handed to the builtin \<^verbatim>\<open>float()\<close>, by what the builtin does with it:
  \<open>Number x\<close> converts to \<open>x\<close> (a float, an int, a string that spells a number),
  \<open>BadString\<close> is a string that spells no number (\<^verbatim>\<open>ValueError\<close>), \<open>NonNumber\<close> is
  any other object, a list for example (\<^verbatim>\<open>TypeError\<close>).
\<close>

datatype 'd pyarg = Number 'd | BadString | NonNumber

fun py_float :: "'d pyarg \<Rightarrow> error + 'd" where
  "py_float (Number x) = Inr x"
| "py_float BadString = Inl ValueError"
| "py_float NonNumber = Inl TypeError"

section \<open>Topology management\<close>

text \<open>
  Every operation takes the heap and returns the heap it leaves together with its
  result or the exception it raises: an exception does not undo the writes made before
  it. \<^verbatim>\<open>add_child\<close> catches only \<^verbatim>\<open>ValueError\<close> and raises \<^verbatim>\<open>TreeError\<close> for it.
\<close>

definition set_float ::
  "('d heap \<Rightarrow> ref \<Rightarrow> 'd \<Rightarrow> 'd heap) \<Rightarrow> 'd heap \<Rightarrow> ref \<Rightarrow> 'd pyarg option \<Rightarrow> error + 'd heap" where
  "set_float setter h c arg =
     (case arg of
        None \<Rightarrow> Inr h
      | Some v \<Rightarrow>
          (case py_float v of
             Inr x \<Rightarrow> Inr (setter h c x)
           | Inl ValueError \<Rightarrow> Inl TreeError
           | Inl e \<Rightarrow> Inl e))"

definition attach :: "'d heap \<Rightarrow> ref \<Rightarrow> ref \<Rightarrow> 'd heap" where
  "attach h self c =
     (let h1 = h[self := (h ! self)\<lparr>children := children (h ! self) @ [c]\<rparr>]
      in h1[c := (h1 ! c)\<lparr>up := Some self\<rparr>])"

definition add_child ::
  "'d::one heap \<Rightarrow> ref \<Rightarrow> ref option \<Rightarrow> string option \<Rightarrow> 'd pyarg option \<Rightarrow> 'd pyarg option
     \<Rightarrow> 'd heap \<times> (error + ref)" where
  "add_child h self child nm dist_arg supp =
     (let (h1, c) = (case child of None \<Rightarrow> (h @ [new_node], length h) | Some c \<Rightarrow> (h, c));
          h2 = (case nm of None \<Rightarrow> h1 | Some s \<Rightarrow> add_feature_name h1 c s)
      in case set_float add_feature_dist h2 c dist_arg of
           Inl e \<Rightarrow> (h2, Inl e)
         | Inr h3 \<Rightarrow>
             (case set_float add_feature_support h3 c supp of
                Inl e \<Rightarrow> (h3, Inl e)
              | Inr h4 \<Rightarrow> (attach h4 self c, Inr c)))"

definition remove_child :: "'d heap \<Rightarrow> ref \<Rightarrow> ref \<Rightarrow> 'd heap \<times> (error + ref)" where
  "remove_child h self child =
     (if child \<in> set (children (h ! self)) then
        (let h1 = h[self := (h ! self)\<lparr>children := remove1 child (children (h ! self))\<rparr>]
         in (h1[child := (h1 ! child)\<lparr>up := None\<rparr>], Inr child))
      else (h, Inl TreeError))"

section \<open>Traversal\<close>

text \<open>
  \<^verbatim>\<open>_iter_descendants_preorder\<close>: the work list \<^verbatim>\<open>tovisit\<close> is read at its front
  (\<^verbatim>\<open>pop(0)\<close>) and extended at its back. The generator is modelled by the list of the
  nodes it yields; a loop that never ends has the value \<open>None\<close>.
\<close>

partial_function (option) preorder_loop :: "'d heap \<Rightarrow> ref list \<Rightarrow> ref list option" where
  "preorder_loop h tovisit =
     (case tovisit of
        [] \<Rightarrow> Some []
      | current # rest \<Rightarrow>
          Option.bind (preorder_loop h (rest @ children (h ! current)))
            (\<lambda>ys. Some (current # ys)))"

declare preorder_loop.simps [code]

definition iter_descendants_preorder :: "'d heap \<Rightarrow> ref \<Rightarrow> ref list option" where
  "iter_descendants_preorder h self = preorder_loop h [self]"

text \<open>
  \<^verbatim>\<open>_iter_descendants_postorder\<close>: \<open>current\<close> is a reference or \<^verbatim>\<open>None\<close>; reading
  \<^verbatim>\<open>children\<close> of \<^verbatim>\<open>None\<close> raises \<^verbatim>\<open>AttributeError\<close>. \<open>first_unvisited\<close> is the
  inner \<^verbatim>\<open>for\<close> loop with its \<^verbatim>\<open>break\<close>.
\<close>

definition first_unvisited :: "ref list \<Rightarrow> ref set \<Rightarrow> ref option" where
  "first_unvisited cs visited = List.find (\<lambda>c. c \<notin> visited) cs"

partial_function (option) postorder_loop ::
  "'d heap \<Rightarrow> ref option \<Rightarrow> ref option \<Rightarrow> ref set \<Rightarrow> (error + ref list) option" where
  "postorder_loop h end current visited_childs =
     (if current = end then Some (Inr [])
      else case current of
        None \<Rightarrow> Some (Inl AttributeError)
      | Some cur \<Rightarrow>
          (case first_unvisited (children (h ! cur)) visited_childs of
             Some c \<Rightarrow> postorder_loop h end (Some c) visited_childs
           | None \<Rightarrow>
               Option.bind (postorder_loop h end (up (h ! cur)) (insert cur visited_childs))
                 (\<lambda>r. Some (case r of Inl e \<Rightarrow> Inl e | Inr ys \<Rightarrow> Inr (cur # ys)))))"

declare postorder_loop.simps [code]

definition iter_descendants_postorder :: "'d heap \<Rightarrow> ref \<Rightarrow> (error + ref list) option" where
  "iter_descendants_postorder h self = postorder_loop h (up (h ! self)) (Some self) {}"

text \<open>
  \<^verbatim>\<open>traverse\<close> dispatches on the strategy; with any other string it returns \<^verbatim>\<open>None\<close>,
  which cannot be iterated (\<^verbatim>\<open>TypeError\<close>).
\<close>

definition traverse :: "'d heap \<Rightarrow> ref \<Rightarrow> string \<Rightarrow> (error + ref list) option" where
  "traverse h self strategy =
     (if strategy = ''preorder'' then map_option Inr (iter_descendants_preorder h self)
      else if strategy = ''postorder'' then iter_descendants_postorder h self
      else Some (Inl TypeError))"

definition is_leaf :: "'d heap \<Rightarrow> ref \<Rightarrow> bool" where
  "is_leaf h self = (collapsed (h ! self) \<or> length (children (h ! self)) = 0)"

definition is_root :: "'d heap \<Rightarrow> ref \<Rightarrow> bool" where
  "is_root h self = (up (h ! self) = None)"

text \<open>
  \<^verbatim>\<open>iter_leaves\<close> and \<^verbatim>\<open>get_leaves\<close> filter \<^verbatim>\<open>traverse(strategy="preorder")\<close>, which
  is \<open>iter_descendants_preorder\<close>.
\<close>

definition iter_leaves :: "'d heap \<Rightarrow> ref \<Rightarrow> ref list option" where
  "iter_leaves h self = map_option (filter (is_leaf h)) (iter_descendants_preorder h self)"

definition get_leaves :: "'d heap \<Rightarrow> ref \<Rightarrow> ref list option" where
  "get_leaves h self = iter_leaves h self"

definition get_leaves_by_name :: "'d heap \<Rightarrow> ref \<Rightarrow> string \<Rightarrow> ref list option" where
  "get_leaves_by_name h self nm =
     map_option (filter (\<lambda>n. name (h ! n) = nm)) (iter_leaves h self)"

definition get_descendants :: "'d heap \<Rightarrow> ref \<Rightarrow> ref list option" where
  "get_descendants h self =
     map_option (filter (\<lambda>n. n \<noteq> self)) (iter_descendants_preorder h self)"




section \<open>Truth value of a node, delete and detach\<close>

text \<open>
  \<^verbatim>\<open>TreeNode\<close> defines \<^verbatim>\<open>__len__\<close> (the number of leaves under the node) and no
  \<^verbatim>\<open>__nonzero__\<close>, so the test \<^verbatim>\<open>if self.up:\<close> holds when \<^verbatim>\<open>self.up\<close> is a node whose
  \<^verbatim>\<open>__len__\<close> is not zero; computing it traverses the nodes under \<^verbatim>\<open>self.up\<close>.
\<close>

definition node_len :: "'d heap \<Rightarrow> ref \<Rightarrow> nat option" where
  "node_len h self = map_option length (get_leaves h self)"

definition truth :: "'d heap \<Rightarrow> ref option \<Rightarrow> bool option" where
  "truth h r = (case r of None \<Rightarrow> Some False | Some n \<Rightarrow> map_option (\<lambda>k. k \<noteq> 0) (node_len h n))"

text \<open>
  \<^verbatim>\<open>delete\<close>: the \<^verbatim>\<open>for\<close> loop hands every child of \<^verbatim>\<open>self\<close> to
  \<^verbatim>\<open>self.up.add_child\<close>, then \<^verbatim>\<open>self.up.remove_child(self)\<close> runs. The list
  \<^verbatim>\<open>self.children\<close> is not emptied. When \<^verbatim>\<open>self.up\<close> is \<^verbatim>\<open>self\<close> the loop appends to
  the list it iterates over and never ends.
\<close>

definition delete :: "'d::one heap \<Rightarrow> ref \<Rightarrow> ('d heap \<times> (error + unit)) option" where
  "delete h self =
     Option.bind (truth h (up (h ! self))) (\<lambda>t.
       if \<not> t then Some (h, Inr ())
       else case up (h ! self) of
         None \<Rightarrow> Some (h, Inr ())
       | Some p \<Rightarrow>
           if p = self \<and> children (h ! self) \<noteq> [] then None
           else
             (let h1 = foldl (\<lambda>g ch. fst (add_child g p (Some ch) None None None)) h
                         (children (h ! self))
              in case remove_child h1 p self of
                   (h2, Inl e) \<Rightarrow> Some (h2, Inl e)
                 | (h2, Inr c) \<Rightarrow> Some (h2, Inr ())))"

text \<open>\<^verbatim>\<open>detach\<close>: \<^verbatim>\<open>list.remove\<close> raises \<^verbatim>\<open>ValueError\<close> when the node is not listed.\<close>

definition detach :: "'d heap \<Rightarrow> ref \<Rightarrow> ('d heap \<times> (error + ref)) option" where
  "detach h self =
     Option.bind (truth h (up (h ! self))) (\<lambda>t.
       if \<not> t then Some (h, Inr self)
       else case up (h ! self) of
         None \<Rightarrow> Some (h, Inr self)
       | Some p \<Rightarrow>
           if self \<in> set (children (h ! p)) then
             (let h1 = h[p := (h ! p)\<lparr>children := remove1 self (children (h ! p))\<rparr>]
              in Some (h1[self := (h1 ! self)\<lparr>up := None\<rparr>], Inr self))
           else Some (h, Inl ValueError))"

section \<open>Topology queries\<close>

partial_function (option) get_tree_root :: "'d heap \<Rightarrow> ref \<Rightarrow> ref option" where
  "get_tree_root h root_node =
     (case up (h ! root_node) of None \<Rightarrow> Some root_node | Some p \<Rightarrow> get_tree_root h p)"

declare get_tree_root.simps [code]

text \<open>
  \<^verbatim>\<open>get_common_ancestor\<close>. \<open>new_nodes\<close> is the list comprehension
  \<^verbatim>\<open>[n for s in current.children for n in s.traverse() if s != prev_node]\<close>: every
  child is traversed, and the nodes of the child \<^verbatim>\<open>prev_node\<close> are filtered out. The
  result of the method is a node or \<^verbatim>\<open>None\<close> (the inner option).
\<close>

fun new_nodes :: "'d heap \<Rightarrow> ref \<Rightarrow> ref list \<Rightarrow> ref list option" where
  "new_nodes h prev_node [] = Some []"
| "new_nodes h prev_node (s # ss) =
     Option.bind (iter_descendants_preorder h s) (\<lambda>ns.
       Option.bind (new_nodes h prev_node ss) (\<lambda>more.
         Some (filter (\<lambda>n. s \<noteq> prev_node) ns @ more)))"

partial_function (option) common_ancestor_loop ::
  "'d heap \<Rightarrow> ref set \<Rightarrow> ref set \<Rightarrow> ref option \<Rightarrow> ref \<Rightarrow> ref option option" where
  "common_ancestor_loop h targets nodes_bellow current prev_node =
     (case current of
        None \<Rightarrow> Some None
      | Some cur \<Rightarrow>
          Option.bind (new_nodes h prev_node (children (h ! cur))) (\<lambda>new.
            if targets \<subseteq> nodes_bellow \<union> set (new @ [cur]) then Some (Some cur)
            else common_ancestor_loop h targets (nodes_bellow \<union> set (new @ [cur]))
                   (up (h ! cur)) cur))"

declare common_ancestor_loop.simps [code]

definition get_common_ancestor :: "'d heap \<Rightarrow> ref \<Rightarrow> ref list \<Rightarrow> ref option option" where
  "get_common_ancestor h self target_nodes =
     common_ancestor_loop h (set (self # target_nodes)) {self} (Some self) self"

text \<open>
  \<^verbatim>\<open>get_distance\<close>: \<open>dist_walk\<close> is the loop \<^verbatim>\<open>while current != ancestor\<close>, which adds
  \<^verbatim>\<open>current.dist\<close> to the running sum; it is run from \<^verbatim>\<open>self\<close> and then, on the same
  sum (\<open>acc\<close>, the variable \<^verbatim>\<open>dist\<close>), from \<^verbatim>\<open>target\<close>. Reading \<^verbatim>\<open>dist\<close> of \<^verbatim>\<open>None\<close> raises \<^verbatim>\<open>AttributeError\<close>.
\<close>

partial_function (option) dist_walk ::
  "'d::plus heap \<Rightarrow> ref \<Rightarrow> ref option \<Rightarrow> 'd \<Rightarrow> (error + 'd) option" where
  "dist_walk h ancestor current acc =
     (case current of
        None \<Rightarrow> Some (Inl AttributeError)
      | Some c \<Rightarrow>
          if c = ancestor then Some (Inr acc)
          else dist_walk h ancestor (up (h ! c)) (acc + dist_f (h ! c)))"

declare dist_walk.simps [code]

definition get_distance :: "'d::{zero,plus} heap \<Rightarrow> ref \<Rightarrow> ref \<Rightarrow> (error + 'd) option" where
  "get_distance h self target =
     Option.bind (get_common_ancestor h self [target]) (\<lambda>ancestor.
       case ancestor of
         None \<Rightarrow> Some (Inl TreeError)
       | Some anc \<Rightarrow>
           Option.bind (dist_walk h anc (Some self) 0) (\<lambda>r.
             case r of
               Inl e \<Rightarrow> Some (Inl e)
             | Inr d \<Rightarrow> dist_walk h anc (Some target) d))"

text \<open>
  \<^verbatim>\<open>get_farthest_leaf\<close>. \<open>farthest_loop\<close> is the \<^verbatim>\<open>for\<close> loop over the children with
  its two variables \<^verbatim>\<open>max_node\<close> and \<^verbatim>\<open>max_dist\<close>; the recursive call on a child that
  is no leaf runs the loop over that child's children from \<^verbatim>\<open>(None, 0.0)\<close>.
\<close>

partial_function (option) farthest_loop ::
  "'d::{zero,one,plus,ord} heap \<Rightarrow> bool \<Rightarrow> ref list \<Rightarrow> ref option \<Rightarrow> 'd \<Rightarrow> (ref option \<times> 'd) option" where
  "farthest_loop h topology_only chs max_node max_dist =
     (case chs of
        [] \<Rightarrow> Some (max_node, max_dist)
      | ch # rest \<Rightarrow>
          Option.bind
            (if is_leaf h ch then Some (Some ch, 0)
             else farthest_loop h topology_only (children (h ! ch)) None 0)
            (\<lambda>r. let node = fst r;
                     d = (if topology_only then snd r + 1 else snd r + dist_f (h ! ch))
                 in if d \<ge> max_dist then farthest_loop h topology_only rest node d
                    else farthest_loop h topology_only rest max_node max_dist))"

declare farthest_loop.simps [code]

definition get_farthest_leaf ::
  "'d::{zero,one,plus,ord} heap \<Rightarrow> bool \<Rightarrow> ref \<Rightarrow> (ref option \<times> 'd) option" where
  "get_farthest_leaf h topology_only self =
     (if is_leaf h self then Some (Some self, 0)
      else farthest_loop h topology_only (children (h ! self)) None 0)"

section \<open>Pruning\<close>

text \<open>
  An element of the argument \<^verbatim>\<open>leaves\<close>: a \<^verbatim>\<open>str\<close>, a node, or an object of another
  type (which the first loop of \<^verbatim>\<open>prune\<close> skips).
\<close>

datatype selector = ByName string | ByNode ref | OtherSel

fun node_instances_of :: "'d heap \<Rightarrow> ref \<Rightarrow> selector list \<Rightarrow> ref set \<Rightarrow> ref set option" where
  "node_instances_of h self [] node_instances = Some node_instances"
| "node_instances_of h self (l # ls) node_instances =
     (case l of
        ByName s \<Rightarrow>
          Option.bind (get_leaves_by_name h self s) (\<lambda>xs.
            node_instances_of h self ls (node_instances \<union> set xs))
      | ByNode r \<Rightarrow> node_instances_of h self ls (insert r node_instances)
      | OtherSel \<Rightarrow> node_instances_of h self ls node_instances)"

text \<open>
  The inner \<^verbatim>\<open>while\<close> loop of \<^verbatim>\<open>prune\<close> for one node \<open>n\<close> of \<^verbatim>\<open>to_delete\<close>:
  \<^verbatim>\<open>next = current.up\<close> is read before \<^verbatim>\<open>current.delete()\<close>.
\<close>

partial_function (option) prune_up ::
  "'d::one heap \<Rightarrow> ref \<Rightarrow> ref option \<Rightarrow> ('d heap \<times> (error + unit)) option" where
  "prune_up h n current =
     (case current of
        None \<Rightarrow> Some (h, Inr ())
      | Some cur \<Rightarrow>
          if cur = n \<or> length (children (h ! cur)) = 1 then
            Option.bind (delete h cur) (\<lambda>res.
              case snd res of
                Inl e \<Rightarrow> Some (fst res, Inl e)
              | Inr u \<Rightarrow> prune_up (fst res) n (up (h ! cur)))
          else Some (h, Inr ()))"

declare prune_up.simps [code]

fun prune_all :: "'d::one heap \<Rightarrow> ref list \<Rightarrow> ('d heap \<times> (error + unit)) option" where
  "prune_all h [] = Some (h, Inr ())"
| "prune_all h (n # ns) =
     Option.bind (prune_up h n (Some n)) (\<lambda>res.
       case snd res of
         Inl e \<Rightarrow> Some (fst res, Inl e)
       | Inr u \<Rightarrow> prune_all (fst res) ns)"

text \<open>
  \<^verbatim>\<open>prune\<close>. \<^verbatim>\<open>to_delete\<close> is a Python set, and the loop \<^verbatim>\<open>for n in to_delete\<close>
  visits it in the order of the set's hash table; \<open>set_iter\<close> is that order, a
  parameter of the model.
\<close>

definition prune_run ::
  "(ref set \<Rightarrow> ref list) \<Rightarrow> 'd::one heap \<Rightarrow> ref set \<Rightarrow> ('d heap \<times> (error + ref set)) option" where
  "prune_run set_iter h to_delete =
     Option.bind (prune_all h (set_iter to_delete)) (\<lambda>res.
       case snd res of
         Inl e \<Rightarrow> Some (fst res, Inl e)
       | Inr u \<Rightarrow> Some (fst res, Inr to_delete))"

definition prune ::
  "(ref set \<Rightarrow> ref list) \<Rightarrow> 'd::one heap \<Rightarrow> ref \<Rightarrow> selector list \<Rightarrow> string
     \<Rightarrow> ('d heap \<times> (error + ref set)) option" where
  "prune set_iter h self leaves method =
     Option.bind (node_instances_of h self leaves {}) (\<lambda>node_instances.
       Option.bind (get_leaves h self) (\<lambda>nodes_leaves.
         if \<not> node_instances \<subseteq> set nodes_leaves then Some (h, Inl TreeError)
         else if method = ''crop'' then prune_run set_iter h node_instances
         else if method = ''keep'' then
           Option.bind (get_leaves h self) (\<lambda>ls.
             prune_run set_iter h (set ls - node_instances))
         else Some (h, Inl TreeError)))"

section \<open>Rerooting\<close>

text \<open>
  \<^verbatim>\<open>set_outgroup\<close>, in the order of the source. \<open>find_branch\<close> is the loop
  \<^verbatim>\<open>while n.up is not self: n = n.up\<close>; when it walks past the root, \<^verbatim>\<open>n\<close> is
  \<^verbatim>\<open>None\<close> and reading \<^verbatim>\<open>n.up\<close> raises \<^verbatim>\<open>AttributeError\<close>.
\<close>

partial_function (option) find_branch :: "'d heap \<Rightarrow> ref \<Rightarrow> ref \<Rightarrow> (error + ref) option" where
  "find_branch h self n =
     (case up (h ! n) of
        None \<Rightarrow> Some (Inl AttributeError)
      | Some p \<Rightarrow> if p = self then Some (Inr n) else find_branch h self p)"

declare find_branch.simps [code]

text \<open>One round of the loop that moves the remaining children of \<^verbatim>\<open>self\<close> under the
  new connector node.\<close>

definition move_to_connector :: "'d heap \<Rightarrow> ref \<Rightarrow> ref \<Rightarrow> ref \<Rightarrow> 'd heap" where
  "move_to_connector h self conn ch =
     (let h1 = h[conn := (h ! conn)\<lparr>children := children (h ! conn) @ [ch]\<rparr>];
          h2 = h1[ch := (h1 ! ch)\<lparr>up := Some conn\<rparr>]
      in h2[self := (h2 ! self)\<lparr>children := remove1 ch (children (h2 ! self))\<rparr>])"

text \<open>
  The branch \<^verbatim>\<open>if len(self.children)>1\<close> and its \<^verbatim>\<open>else\<close>: the result is the heap and
  \<^verbatim>\<open>down_branch_connector\<close>; \<^verbatim>\<open>self.children[0]\<close> on an empty list raises
  \<^verbatim>\<open>IndexError\<close>.
\<close>

definition down_branch :: "'d::{zero,one} heap \<Rightarrow> ref \<Rightarrow> error + ('d heap \<times> ref)" where
  "down_branch h self =
     (if length (children (h ! self)) > 1 then
        (let conn = length h;
             h2 = h @ [new_node\<lparr>dist_f := 0\<rparr>]
         in Inr (foldl (\<lambda>g ch. move_to_connector g self conn ch) h2 (children (h2 ! self)), conn))
      else case children (h ! self) of
             [] \<Rightarrow> Inl IndexError
           | c # cs \<Rightarrow> Inr (h, c))"

text \<open>
  The parent-child swapping loop \<^verbatim>\<open>while quien_va_ser_hijo is not self\<close>. When
  \<^verbatim>\<open>quien_va_ser_hijo\<close> is \<^verbatim>\<open>None\<close> the body raises \<^verbatim>\<open>AttributeError\<close> at
  \<^verbatim>\<open>quien_va_ser_hijo.children\<close> (after appending \<^verbatim>\<open>None\<close> to a list of children,
  which the heap of the model does not record).
\<close>

partial_function (option) swap_loop ::
  "'d heap \<Rightarrow> ref \<Rightarrow> ref \<Rightarrow> ref option \<Rightarrow> ref option \<Rightarrow> 'd
     \<Rightarrow> ('d heap \<times> (error + (ref \<times> ref option \<times> 'd))) option" where
  "swap_loop h self quien_va_ser_padre quien_va_ser_hijo quien_fue_padre buffered_dist =
     (case quien_va_ser_hijo of
        None \<Rightarrow> Some (h, Inl AttributeError)
      | Some hijo \<Rightarrow>
          if hijo = self then Some (h, Inr (quien_va_ser_padre, quien_fue_padre, buffered_dist))
          else
            (let h1 = h[quien_va_ser_padre := (h ! quien_va_ser_padre)
                        \<lparr>children := children (h ! quien_va_ser_padre) @ [hijo]\<rparr>]
             in if quien_va_ser_padre \<notin> set (children (h1 ! hijo)) then Some (h1, Inl ValueError)
                else
                  (let h2 = h1[hijo := (h1 ! hijo)
                              \<lparr>children := remove1 quien_va_ser_padre (children (h1 ! hijo))\<rparr>];
                       buffered_dist2 = dist_f (h2 ! hijo);
                       h3 = h2[hijo := (h2 ! hijo)\<lparr>dist_f := buffered_dist\<rparr>];
                       h4 = h3[quien_va_ser_padre := (h3 ! quien_va_ser_padre)\<lparr>up := quien_fue_padre\<rparr>]
                   in swap_loop h4 self hijo (up (h4 ! hijo)) (Some quien_va_ser_padre)
                        buffered_dist2)))"

declare swap_loop.simps [code]

text \<open>
  The branch \<^verbatim>\<open>if quien_va_ser_padre is not self\<close> and its \<^verbatim>\<open>else\<close>: the result is
  \<^verbatim>\<open>outgroup2\<close>.
\<close>

definition connect_down_branch ::
  "'d::{zero,plus} heap \<Rightarrow> ref \<Rightarrow> ref option \<Rightarrow> ref \<Rightarrow> ref \<Rightarrow> ('d heap \<times> (error + ref)) option" where
  "connect_down_branch h self parent_outgroup outgroup down_branch_connector =
     (case parent_outgroup of
        None \<Rightarrow> Some (h, Inl AttributeError)
      | Some po \<Rightarrow>
          if po = self then Some (h, Inr down_branch_connector)
          else
            Option.bind (swap_loop h self po (up (h ! po)) None (dist_f (h ! po))) (\<lambda>res.
              case snd res of
                Inl e \<Rightarrow> Some (fst res, Inl e)
              | Inr (padre, fue_padre, buffered_dist) \<Rightarrow>
                  (let g = fst res;
                       h2 = g[padre := (g ! padre)\<lparr>children := children (g ! padre) @ [down_branch_connector]\<rparr>];
                       h3 = h2[down_branch_connector := (h2 ! down_branch_connector)\<lparr>up := Some padre\<rparr>];
                       h4 = h3[padre := (h3 ! padre)\<lparr>up := fue_padre\<rparr>];
                       h5 = h4[down_branch_connector := (h4 ! down_branch_connector)
                              \<lparr>dist_f := dist_f (h4 ! down_branch_connector) + buffered_dist\<rparr>]
                   in if outgroup \<notin> set (children (h5 ! po)) then Some (h5, Inl ValueError)
                      else
                        (let h6 = h5[po := (h5 ! po)\<lparr>children := remove1 outgroup (children (h5 ! po))\<rparr>]
                         in Some (h6[po := (h6 ! po)\<lparr>dist_f := 0\<rparr>], Inr po)))))"

text \<open>
  The last seven lines of \<^verbatim>\<open>set_outgroup\<close>. \<^verbatim>\<open>self.children.sort()\<close> orders the two
  nodes by Python 2's default comparison of objects, their addresses; \<open>addr\<close> is the
  address of an object, a parameter of the model.
\<close>

definition finish_outgroup ::
  "(ref \<Rightarrow> nat) \<Rightarrow> 'd::{plus,inverse,numeral} heap \<Rightarrow> ref \<Rightarrow> ref \<Rightarrow> ref \<Rightarrow> 'd heap" where
  "finish_outgroup addr h self outgroup outgroup2 =
     (let h1 = h[outgroup := (h ! outgroup)\<lparr>up := Some self\<rparr>];
          h2 = h1[outgroup2 := (h1 ! outgroup2)\<lparr>up := Some self\<rparr>];
          h3 = h2[self := (h2 ! self)\<lparr>children := [outgroup, outgroup2]\<rparr>];
          middist = (dist_f (h3 ! outgroup2) + dist_f (h3 ! outgroup)) / 2;
          h4 = h3[outgroup := (h3 ! outgroup)\<lparr>dist_f := middist\<rparr>];
          h5 = h4[outgroup2 := (h4 ! outgroup2)\<lparr>dist_f := middist\<rparr>]
      in h5[self := (h5 ! self)\<lparr>children := sort_key addr (children (h5 ! self))\<rparr>])"

definition set_outgroup ::
  "(ref \<Rightarrow> nat) \<Rightarrow> 'd::{zero,plus,inverse,numeral} heap \<Rightarrow> ref \<Rightarrow> ref
     \<Rightarrow> ('d heap \<times> (error + unit)) option" where
  "set_outgroup addr h self outgroup =
     (if self = outgroup then Some (h, Inr ())
      else
        Option.bind (find_branch h self outgroup) (\<lambda>r.
          case r of
            Inl e \<Rightarrow> Some (h, Inl e)
          | Inr n \<Rightarrow>
              if n \<notin> set (children (h ! self)) then Some (h, Inl ValueError)
              else
                (let h1 = h[self := (h ! self)\<lparr>children := remove1 n (children (h ! self))\<rparr>]
                 in case down_branch h1 self of
                      Inl e \<Rightarrow> Some (h1, Inl e)
                    | Inr (h3, down_branch_connector) \<Rightarrow>
                        Option.bind
                          (connect_down_branch h3 self (up (h ! outgroup)) outgroup
                             down_branch_connector)
                          (\<lambda>res.
                            case snd res of
                              Inl e \<Rightarrow> Some (fst res, Inl e)
                            | Inr outgroup2 \<Rightarrow>
                                Some (finish_outgroup addr (fst res) self outgroup outgroup2,
                                      Inr ())))))"

section \<open>Structural invariants\<close>

text \<open>
  \<open>links_ok h L\<close>: the nodes of \<open>L\<close> form a consistent structure. Every child listed
  by a node of \<open>L\<close> is in \<open>L\<close> and points back to it with \<^verbatim>\<open>up\<close>, and every node of
  \<open>L\<close> that has a parent is listed exactly once in that parent's \<^verbatim>\<open>children\<close>.
  Objects outside \<open>L\<close> (nodes that were deleted from the structure) are not constrained.
\<close>

definition links_ok :: "'d heap \<Rightarrow> ref set \<Rightarrow> bool" where
  "links_ok h L =
     (\<forall>r\<in>L. r < length h \<and>
        (\<forall>c\<in>set (children (h ! r)). c \<in> L \<and> up (h ! c) = Some r) \<and>
        (case up (h ! r) of
           None \<Rightarrow> True
         | Some p \<Rightarrow> p \<in> L \<and> count_list (children (h ! p)) r = 1))"

text \<open>
  The structure is a forest when, in addition, following \<^verbatim>\<open>up\<close> from a node of \<open>L\<close>
  reaches a node without parent. \<open>lvl h k r\<close> counts the \<^verbatim>\<open>up\<close> links from \<open>r\<close>, at
  most \<open>k\<close> of them; on a heap of \<open>length h\<close> objects a walk without repetition has
  fewer than \<open>length h\<close> links, so \<open>depth h r < length h\<close> says that the walk ends.
  \<open>path_up h r\<close> is the list of \<open>r\<close> and its ancestors, \<open>below h L a\<close> the nodes of
  \<open>L\<close> that have \<open>a\<close> on that list (the nodes of the subtree of \<open>a\<close>), and
  \<open>level_order h k q\<close> lists the nodes \<open>q\<close>, then their children, and so on for
  \<open>k\<close> generations.
\<close>

fun lvl :: "'d heap \<Rightarrow> nat \<Rightarrow> ref \<Rightarrow> nat" where
  "lvl h 0 r = 0"
| "lvl h (Suc k) r = (case up (h ! r) of None \<Rightarrow> 0 | Some p \<Rightarrow> Suc (lvl h k p))"

definition depth :: "'d heap \<Rightarrow> ref \<Rightarrow> nat" where
  "depth h r = lvl h (length h) r"

definition tree_inv :: "'d heap \<Rightarrow> ref set \<Rightarrow> bool" where
  "tree_inv h L = (links_ok h L \<and> (\<forall>r\<in>L. depth h r < length h))"

fun up_chain :: "'d heap \<Rightarrow> nat \<Rightarrow> ref \<Rightarrow> ref list" where
  "up_chain h 0 r = [r]"
| "up_chain h (Suc k) r = r # (case up (h ! r) of None \<Rightarrow> [] | Some p \<Rightarrow> up_chain h k p)"

definition path_up :: "'d heap \<Rightarrow> ref \<Rightarrow> ref list" where
  "path_up h r = up_chain h (depth h r) r"

definition below :: "'d heap \<Rightarrow> ref set \<Rightarrow> ref \<Rightarrow> ref set" where
  "below h L a = {x \<in> L. a \<in> set (path_up h x)}"

fun level_order :: "'d heap \<Rightarrow> nat \<Rightarrow> ref list \<Rightarrow> ref list" where
  "level_order h 0 q = q"
| "level_order h (Suc k) q = q @ level_order h k (concat (map (\<lambda>x. children (h ! x)) q))"

text \<open>A node record with given links, branch length and name, for concrete heaps.\<close>

definition node_of :: "ref list \<Rightarrow> ref option \<Rightarrow> 'd \<Rightarrow> string \<Rightarrow> 'd::one node" where
  "node_of cs u d nm = new_node\<lparr>children := cs, up := u, dist_f := d, name := nm\<rparr>"

text \<open>The tree \<^verbatim>\<open>((C)A,B)root\<close>: object 0 is the root, 1 is A, 2 is B, 3 is C.\<close>

definition tree_acb :: "real heap" where
  "tree_acb = [node_of [1, 2] None 1 ''root'', node_of [3] (Some 0) 1 ''A'',
               node_of [] (Some 0) 1 ''B'', node_of [] (Some 1) 1 ''C'']"

text \<open>
  The nodes that the argument \<^verbatim>\<open>leaves\<close> of \<^verbatim>\<open>prune\<close> denotes, given the list \<open>ls\<close>
  of the leaves under the node: the nodes given as objects, and the leaves whose name is
  one of the strings given.
\<close>

definition selected :: "'d heap \<Rightarrow> ref list \<Rightarrow> selector list \<Rightarrow> ref set" where
  "selected h ls sels =
     {x. ByNode x \<in> set sels} \<union> {x \<in> set ls. ByName (name (h ! x)) \<in> set sels}"

section \<open>Lemmas on forests and on the traversal\<close>

lemma lvl_fuel: "lvl h k x < k \<Longrightarrow> lvl h (Suc k) x = lvl h k x"
proof (induction k arbitrary: x)
  case 0
  then show ?case by simp
next
  case (Suc k)
  show ?case
  proof (cases "up (h ! x)")
    case None
    then show ?thesis by simp
  next
    case (Some q)
    with Suc.prems have "lvl h k q < k" by simp
    from Suc.IH [OF this] Some show ?thesis by simp
  qed
qed

lemma links_okD:
  assumes "links_ok h L" "r \<in> L"
  shows "r < length h"
    and "c \<in> set (children (h ! r)) \<Longrightarrow> c \<in> L \<and> up (h ! c) = Some r"
    and "up (h ! r) = Some p \<Longrightarrow> p \<in> L \<and> count_list (children (h ! p)) r = 1"
proof -
  from assms have a: "r < length h \<and>
      (\<forall>c\<in>set (children (h ! r)). c \<in> L \<and> up (h ! c) = Some r) \<and>
      (case up (h ! r) of None \<Rightarrow> True
       | Some p \<Rightarrow> p \<in> L \<and> count_list (children (h ! p)) r = 1)"
    unfolding links_ok_def by blast
  show "r < length h" using a by blast
  show "c \<in> set (children (h ! r)) \<Longrightarrow> c \<in> L \<and> up (h ! c) = Some r" using a by blast
  show "up (h ! r) = Some p \<Longrightarrow> p \<in> L \<and> count_list (children (h ! p)) r = 1"
    using a by simp
qed

lemma links_ok_up_child:
  assumes "links_ok h L" "r \<in> L" "up (h ! r) = Some p"
  shows "r \<in> set (children (h ! p))"
  using links_okD(3) [OF assms] by (metis count_list_0_iff zero_neq_one)

lemma tree_invD:
  assumes "tree_inv h L"
  shows "links_ok h L" and "r \<in> L \<Longrightarrow> depth h r < length h"
  using assms by (auto simp: tree_inv_def)

lemma depth_up:
  assumes "tree_inv h L" "r \<in> L" "up (h ! r) = Some p"
  shows "depth h r = Suc (depth h p)"
proof -
  have lt: "depth h r < length h" using assms tree_invD by blast
  then obtain n where n: "length h = Suc n" by (cases "length h") auto
  have "depth h r = Suc (lvl h n p)" using assms(3) n by (simp add: depth_def)
  moreover from this lt n have "lvl h n p < n" by simp
  then have "lvl h (Suc n) p = lvl h n p" by (rule lvl_fuel)
  ultimately show ?thesis by (simp add: depth_def n)
qed

lemma depth_root: "up (h ! r) = None \<Longrightarrow> depth h r = 0"
  by (cases "length h") (simp_all add: depth_def)

lemma path_up_rec:
  assumes "tree_inv h L" "r \<in> L"
  shows "path_up h r = r # (case up (h ! r) of None \<Rightarrow> [] | Some p \<Rightarrow> path_up h p)"
proof (cases "up (h ! r)")
  case None
  then show ?thesis by (simp add: path_up_def depth_root)
next
  case (Some p)
  then show ?thesis using depth_up [OF assms Some] by (simp add: path_up_def)
qed

lemma up_in: "tree_inv h L \<Longrightarrow> r \<in> L \<Longrightarrow> up (h ! r) = Some p \<Longrightarrow> p \<in> L"
  using links_okD(3) tree_invD(1) by blast

lemma child_in:
  "tree_inv h L \<Longrightarrow> r \<in> L \<Longrightarrow> c \<in> set (children (h ! r)) \<Longrightarrow> c \<in> L \<and> up (h ! c) = Some r"
  using links_okD(2) tree_invD(1) by blast

lemma path_up_self: "tree_inv h L \<Longrightarrow> r \<in> L \<Longrightarrow> r \<in> set (path_up h r)"
  by (simp add: path_up_rec)

lemma path_up_induct [consumes 2, case_names root step]:
  assumes "tree_inv h L" "r \<in> L"
    and "\<And>r. r \<in> L \<Longrightarrow> up (h ! r) = None \<Longrightarrow> P r"
    and "\<And>r p. r \<in> L \<Longrightarrow> up (h ! r) = Some p \<Longrightarrow> p \<in> L \<Longrightarrow> P p \<Longrightarrow> P r"
  shows "P r"
  using assms(2)
proof (induction "depth h r" arbitrary: r)
  case 0
  show ?case
  proof (cases "up (h ! r)")
    case None
    then show ?thesis using assms(3) 0 by blast
  next
    case (Some p)
    from depth_up [OF assms(1) 0(2) Some] 0(1) show ?thesis by simp
  qed
next
  case (Suc n)
  show ?case
  proof (cases "up (h ! r)")
    case None
    then show ?thesis using assms(3) Suc.prems by blast
  next
    case (Some p)
    have p: "p \<in> L" using up_in [OF assms(1) Suc.prems Some] .
    have "depth h p = n" using depth_up [OF assms(1) Suc.prems Some] Suc.hyps(2) by simp
    then show ?thesis using Suc.hyps(1) [of p] p assms(4) Suc.prems Some by blast
  qed
qed

lemma path_up_trans:
  assumes "tree_inv h L" "x \<in> L" "y \<in> set (path_up h x)"
  shows "y \<in> L \<and> set (path_up h y) \<subseteq> set (path_up h x)"
  using assms
proof (induction rule: path_up_induct)
  case (root r)
  then show ?case using path_up_rec [OF assms(1), of r] by simp
next
  case (step r p)
  then show ?case using path_up_rec [OF assms(1), of r] by auto
qed

lemma path_up_depth:
  assumes "tree_inv h L" "x \<in> L" "y \<in> set (path_up h x)"
  shows "depth h y \<le> depth h x \<and> (depth h y = depth h x \<longrightarrow> y = x)"
  using assms
proof (induction rule: path_up_induct)
  case (root r)
  then show ?case using path_up_rec [OF assms(1), of r] by simp
next
  case (step r p)
  then show ?case using path_up_rec [OF assms(1), of r] depth_up [OF assms(1), of r p] by auto
qed

lemma preorder_loop_append:
  "preorder_loop h (xs @ rest) =
     Option.bind (preorder_loop h (rest @ concat (map (\<lambda>x. children (h ! x)) xs)))
       (\<lambda>ys. Some (xs @ ys))"
proof (induction xs arbitrary: rest)
  case Nil
  then show ?case by simp
next
  case (Cons x xs)
  have "preorder_loop h ((x # xs) @ rest) =
        Option.bind (preorder_loop h (xs @ (rest @ children (h ! x)))) (\<lambda>ys. Some (x # ys))"
    by (subst preorder_loop.simps) simp
  also have "\<dots> = Option.bind (preorder_loop h (rest @ concat (map (\<lambda>x. children (h ! x)) (x # xs))))
       (\<lambda>ys. Some ((x # xs) @ ys))"
    by (subst Cons.IH) (simp add: Option.bind_assoc)
  finally show ?case .
qed

lemma preorder_loop_level:
  assumes "tree_inv h L"
  shows "\<forall>x\<in>set q. x \<in> L \<and> length h \<le> depth h x + k \<Longrightarrow>
         preorder_loop h q = Some (level_order h k q)"
proof (induction k arbitrary: q)
  case 0
  have "q = []"
  proof (cases q)
    case (Cons x xs)
    then have "x \<in> L" "length h \<le> depth h x" using 0 by auto
    then show ?thesis using tree_invD(2) [OF assms, of x] by simp
  qed simp
  then show ?case by (subst preorder_loop.simps) simp
next
  case (Suc k)
  let ?next = "concat (map (\<lambda>x. children (h ! x)) q)"
  have "\<forall>c\<in>set ?next. c \<in> L \<and> length h \<le> depth h c + k"
  proof
    fix c assume "c \<in> set ?next"
    then obtain x where x: "x \<in> set q" "c \<in> set (children (h ! x))" by auto
    then have xl: "x \<in> L" "length h \<le> depth h x + Suc k" using Suc.prems by auto
    have c: "c \<in> L" "up (h ! c) = Some x" using child_in [OF assms xl(1) x(2)] by auto
    from depth_up [OF assms c] xl(2) c(1) show "c \<in> L \<and> length h \<le> depth h c + k" by simp
  qed
  from Suc.IH [OF this] preorder_loop_append [of h q "[]"] show ?case by simp
qed

lemma iter_descendants_preorder_level:
  assumes "tree_inv h L" "r \<in> L"
  shows "iter_descendants_preorder h r = Some (level_order h (length h) [r])"
  unfolding iter_descendants_preorder_def
  by (rule preorder_loop_level [OF assms(1)]) (simp add: assms(2))

section \<open>Claims on single operations\<close>

text \<open>
  C3, evaluated on the code: on the tree \<^verbatim>\<open>((C)A,B)root\<close> the traversal with strategy
  \<^verbatim>\<open>"preorder"\<close> yields root, A, B, C. The node C, which is in the subtree of the first
  child A, comes after the next sibling B: the work list is a queue, so the order is
  level by level, where preorder is root, A, C, B.
\<close>

theorem traverse_preorder_is_level_order:
  "traverse tree_acb 0 ''preorder'' = Some (Inr [0, 1, 2, 3]) \<and>
   children (tree_acb ! 0) = [1, 2] \<and> children (tree_acb ! 1) = [3] \<and>
   children (tree_acb ! 2) = [] \<and> children (tree_acb ! 3) = []"
  by code_simp




section \<open>Claims on \<^verbatim>\<open>add_child\<close>\<close>





section \<open>Claims on \<^verbatim>\<open>prune\<close>\<close>

lemma get_leaves_total:
  assumes "tree_inv h L" "r \<in> L"
  shows "get_leaves h r = Some (filter (is_leaf h) (level_order h (length h) [r]))"
  by (simp add: get_leaves_def iter_leaves_def iter_descendants_preorder_level [OF assms])

lemma node_instances_of_selected:
  assumes "get_leaves h self = Some ls"
  shows "node_instances_of h self sels acc = Some (acc \<union> selected h ls sels)"
proof (induction sels arbitrary: acc)
  case Nil
  then show ?case by (simp add: selected_def)
next
  case (Cons l sels)
  have byname: "\<And>s. get_leaves_by_name h self s = Some (filter (\<lambda>n. name (h ! n) = s) ls)"
    using assms by (simp add: get_leaves_by_name_def get_leaves_def)
  show ?case
  proof (cases l)
    case (ByName s)
    then show ?thesis by (auto simp: Cons.IH byname selected_def)
  next
    case (ByNode r)
    then show ?thesis by (auto simp: Cons.IH selected_def)
  next
    case OtherSel
    then show ?thesis by (auto simp: Cons.IH selected_def)
  qed
qed

lemma tree_acb_inv: "tree_inv tree_acb {0, 1, 2, 3}"
  by code_simp

lemma tree_acb_leaves: "get_leaves tree_acb 0 = Some [2, 3]"
  by code_simp

text \<open>
  C7: on a forest, for a node \<open>self\<close> of it, \<^verbatim>\<open>get_leaves\<close> returns a list \<open>ls\<close>, and
  when the argument \<^verbatim>\<open>leaves\<close> denotes exactly the nodes of \<open>ls\<close> (by object or by
  name), \<^verbatim>\<open>prune(leaves, method="keep")\<close> returns the empty set and leaves the heap as
  it was: no link and no attribute of any node changes. The iteration order of Python's
  empty set is the empty sequence.
\<close>

theorem prune_keep_all_leaves_is_noop:
  assumes "tree_inv h L" "self \<in> L" "set (set_iter {}) = {}"
  shows "\<exists>ls. get_leaves h self = Some ls \<and>
           (selected h ls leaves = set ls \<longrightarrow>
              prune set_iter h self leaves ''keep'' = Some (h, Inr {}))"
proof -
  let ?ls = "filter (is_leaf h) (level_order h (length h) [self])"
  have gl: "get_leaves h self = Some ?ls" by (rule get_leaves_total [OF assms(1,2)])
  have ni: "node_instances_of h self leaves {} = Some (selected h ?ls leaves)"
    using node_instances_of_selected [OF gl, of leaves "{}"] by simp
  have "prune set_iter h self leaves ''keep'' = Some (h, Inr {})"
    if "selected h ?ls leaves = set ?ls"
    using that assms(3) by (simp add: prune_def ni gl prune_run_def)
  then show ?thesis using gl by blast
qed


theorem prune_keep_all_leaves_is_noop_witness:
  "tree_inv tree_acb {0, 1, 2, 3} \<and> get_leaves tree_acb 0 = Some [2, 3] \<and>
   selected tree_acb [2, 3] [ByNode 2, ByName ''C''] = {2, 3} \<and>
   prune sorted_list_of_set tree_acb 0 [ByNode 2, ByName ''C''] ''keep'' = Some (tree_acb, Inr {})"
proof -
  have s: "selected tree_acb [2, 3] [ByNode 2, ByName ''C''] = {2, 3}"
    by (auto simp: selected_def tree_acb_def node_of_def)
  have i: "set (sorted_list_of_set ({} :: ref set)) = {}" by simp
  have z: "(0::nat) \<in> {0, 1, 2, 3}" by simp
  show ?thesis
    using prune_keep_all_leaves_is_noop [of tree_acb "{0, 1, 2, 3}" 0 sorted_list_of_set
        "[ByNode 2, ByName ''C'']"]
      tree_acb_inv tree_acb_leaves s z i by simp
qed

section \<open>Claims on \<^verbatim>\<open>set_outgroup\<close>\<close>

text \<open>
  C5, evaluated on the code: in the tree \<^verbatim>\<open>((C)A,B)root\<close> the node A has the single
  child C, and C is strictly below A. \<^verbatim>\<open>A.set_outgroup(C)\<close> removes C from
  \<^verbatim>\<open>A.children\<close>, finds no more than one child left and reads \<^verbatim>\<open>self.children[0]\<close> of
  the empty list: the call raises \<^verbatim>\<open>IndexError\<close>. It leaves A without children while
  \<^verbatim>\<open>C.up\<close> is still A, where the claim has two children of equal \<^verbatim>\<open>dist\<close>. This
  holds whatever the addresses of the objects are.
\<close>

theorem set_outgroup_single_child_raises:
  "children (tree_acb ! 1) = [3] \<and> up (tree_acb ! 3) = Some 1 \<and>
   map_option snd (set_outgroup addr tree_acb 1 3) = Some (Inl IndexError) \<and>
   map_option (\<lambda>r. children (fst r ! 1)) (set_outgroup addr tree_acb 1 3) = Some [] \<and>
   map_option (\<lambda>r. up (fst r ! 3)) (set_outgroup addr tree_acb 1 3) = Some (Some 1)"
  by code_simp

end
